theory Spec2Isabelle
  imports Complex_Main
begin

section \<open>Arrays\<close>

text \<open>
  The transformers of \<^verbatim>\<open>bwpy/signal.py\<close> work on numpy arrays. An array is modelled
  by its shape and its elements in row-major (C) order, which is the order numpy's
  \<^verbatim>\<open>reshape\<close> reads them in. Numeric elements are taken from an ordered ring or field
  with exact arithmetic; booleans are \<^typ>\<open>bool\<close>.
\<close>

datatype error = ValueError | TypeError | IndexError | AxisError

record 'a ndarray =
  shape :: "nat list"
  buf :: "'a list"

definition ndim :: "'a ndarray \<Rightarrow> nat" where
  "ndim a = length (shape a)"

definition size_of :: "'a ndarray \<Rightarrow> nat" where
  "size_of a = prod_list (shape a)"

definition well_formed :: "'a ndarray \<Rightarrow> bool" where
  "well_formed a = (length (buf a) = prod_list (shape a))"

text \<open>Row-major offset of a multi-index, and the test that an index is inside a shape.\<close>

fun ravel :: "nat list \<Rightarrow> nat list \<Rightarrow> nat" where
  "ravel (d # ds) (i # js) = i * prod_list ds + ravel ds js"
| "ravel _ _ = 0"

definition in_bounds :: "nat list \<Rightarrow> nat list \<Rightarrow> bool" where
  "in_bounds sh idx = list_all2 (<) idx sh"

definition item :: "'a ndarray \<Rightarrow> nat list \<Rightarrow> 'a" where
  "item a idx = buf a ! ravel (shape a) idx"

text \<open>The elements of a new array of shape \<open>sh\<close>, given as a function of the multi-index.\<close>

fun tabulate :: "nat list \<Rightarrow> (nat list \<Rightarrow> 'a) \<Rightarrow> 'a list" where
  "tabulate [] f = [f []]"
| "tabulate (d # ds) f = concat (map (\<lambda>i. tabulate ds (\<lambda>js. f (i # js))) [0..<d])"

definition mk :: "nat list \<Rightarrow> (nat list \<Rightarrow> 'a) \<Rightarrow> 'a ndarray" where
  "mk sh f = \<lparr>shape = sh, buf = tabulate sh f\<rparr>"

definition map_array :: "('a \<Rightarrow> 'b) \<Rightarrow> 'a ndarray \<Rightarrow> 'b ndarray" where
  "map_array g a = \<lparr>shape = shape a, buf = map g (buf a)\<rparr>"

section \<open>The recording context\<close>

text \<open>
  The \<^verbatim>\<open>file\<close> argument of every transformer (\<open>fl\<close> below): the code reads \<^verbatim>\<open>file.sampling_rate\<close>,
  \<^verbatim>\<open>file.max_volt\<close> and calls \<^verbatim>\<open>file.convert\<close>.
\<close>

record 'a recording =
  sampling_rate :: 'a
  max_volt :: 'a
  convert :: "'a \<Rightarrow> 'a"

section \<open>Shutter: the delay in index units\<close>

text \<open>Python's \<^verbatim>\<open>int(x)\<close> on a number truncates towards zero.\<close>

definition py_int :: "'a::floor_ceiling \<Rightarrow> int" where
  "py_int x = (if 0 \<le> x then \<lfloor>x\<rfloor> else \<lceil>x\<rceil>)"

text \<open>\<^verbatim>\<open>def ms_to_idx(self, file, delay_ms): return int(delay_ms * file.sampling_rate * 1000)\<close>\<close>

definition ms_to_idx :: "'a::floor_ceiling recording \<Rightarrow> 'a \<Rightarrow> int" where
  "ms_to_idx fl delay_ms = py_int (delay_ms * sampling_rate fl * 1000)"

section \<open>The numpy operations the transformers call\<close>

text \<open>
  \<^verbatim>\<open>numpy.lib.stride_tricks.sliding_window_view(x, window_shape)\<close> with no \<^verbatim>\<open>axis\<close>:
  it rejects a negative window length, a window shape whose length is not the number of
  dimensions, and a window longer than its axis. Axis \<open>k\<close> of \<open>x\<close> keeps
  \<open>d - (w - 1)\<close> positions and the window axes are appended; element
  \<open>(t\<^sub>1..t\<^sub>n, w\<^sub>1..w\<^sub>n)\<close> of the view is element \<open>(t\<^sub>1 + w\<^sub>1, .., t\<^sub>n + w\<^sub>n)\<close> of \<open>x\<close>.
\<close>

definition sliding_window_view :: "'a ndarray \<Rightarrow> int list \<Rightarrow> error + 'a ndarray" where
  "sliding_window_view x window_shape =
     (if list_ex (\<lambda>w. w < 0) window_shape then Inl ValueError
      else if length window_shape \<noteq> ndim x then Inl ValueError
      else if list_ex (\<lambda>(d, w). int d < w) (zip (shape x) window_shape) then Inl ValueError
      else Inr (mk (map (\<lambda>(d, w). nat (int d - (w - 1))) (zip (shape x) window_shape)
                      @ map nat window_shape)
                   (\<lambda>idx. item x (map (\<lambda>(t, w). t + w)
                                       (zip (take (ndim x) idx) (drop (ndim x) idx))))))"

text \<open>
  \<^verbatim>\<open>a.reshape(-1, d1, .., dk)\<close>: the first length is inferred. numpy refuses when the
  known lengths multiply to zero or do not divide the size; the elements keep their
  row-major order.
\<close>

definition reshape_infer :: "'a ndarray \<Rightarrow> int list \<Rightarrow> error + 'a ndarray" where
  "reshape_infer a known =
     (if list_ex (\<lambda>d. d < 0) known then Inl ValueError
      else if prod_list (map nat known) = 0 \<or> size_of a mod prod_list (map nat known) \<noteq> 0
        then Inl ValueError
      else Inr \<lparr>shape = (size_of a div prod_list (map nat known)) # map nat known,
                buf = buf a\<rparr>)"

text \<open>Reduction of one axis by a function of the list of elements along it.\<close>

definition reduce_axis :: "('a list \<Rightarrow> 'b) \<Rightarrow> nat \<Rightarrow> 'a ndarray \<Rightarrow> 'b ndarray" where
  "reduce_axis g ax a =
     mk (take ax (shape a) @ drop (Suc ax) (shape a))
        (\<lambda>idx. g (map (\<lambda>j. item a (take ax idx @ [j] @ drop ax idx)) [0..<shape a ! ax]))"

text \<open>
  \<^verbatim>\<open>np.max(a, axis=ax)\<close>, \<^verbatim>\<open>np.min(a, axis=ax)\<close>: an axis that does not exist is an
  AxisError, and a reduction with no identity over an axis of length zero is a
  ValueError. \<^verbatim>\<open>np.sum(a, axis=ax)\<close> has the identity 0.
\<close>

definition np_max :: "'a::linorder ndarray \<Rightarrow> nat \<Rightarrow> error + 'a ndarray" where
  "np_max a ax =
     (if ndim a \<le> ax then Inl AxisError
      else if shape a ! ax = 0 then Inl ValueError
      else Inr (reduce_axis (\<lambda>xs. Max (set xs)) ax a))"

definition np_min :: "'a::linorder ndarray \<Rightarrow> nat \<Rightarrow> error + 'a ndarray" where
  "np_min a ax =
     (if ndim a \<le> ax then Inl AxisError
      else if shape a ! ax = 0 then Inl ValueError
      else Inr (reduce_axis (\<lambda>xs. Min (set xs)) ax a))"

definition np_sum :: "'a::monoid_add ndarray \<Rightarrow> nat \<Rightarrow> error + 'a ndarray" where
  "np_sum a ax =
     (if ndim a \<le> ax then Inl AxisError
      else Inr (reduce_axis sum_list ax a))"

definition np_abs :: "'a::abs ndarray \<Rightarrow> 'a ndarray" where
  "np_abs a = map_array abs a"

definition np_square :: "'a::times ndarray \<Rightarrow> 'a ndarray" where
  "np_square a = map_array (\<lambda>v. v * v) a"

text \<open>
  Elementwise difference. In \<^verbatim>\<open>Variation\<close> both operands are reductions of the same
  windows, so they have one shape and nothing is broadcast.
\<close>

definition np_subtract :: "'a::minus ndarray \<Rightarrow> 'a ndarray \<Rightarrow> 'a ndarray" where
  "np_subtract a b = \<lparr>shape = shape a, buf = map (\<lambda>(u, v). u - v) (zip (buf a) (buf b))\<rparr>"

text \<open>
  \<^verbatim>\<open>np.sum(a, axis=(1, 2))\<close> on a boolean array: the number of true elements over
  axes 1 and 2, for each position of the other axes.
\<close>

definition np_sum_axes_1_2 :: "bool ndarray \<Rightarrow> error + int ndarray" where
  "np_sum_axes_1_2 a =
     (if ndim a < 3 then Inl AxisError
      else Inr (mk (hd (shape a) # drop 3 (shape a))
                   (\<lambda>idx. sum_list (concat (map (\<lambda>i1. map (\<lambda>i2. of_bool (item a (hd idx # i1 # i2 # tl idx)))
                                                          [0..<shape a ! 2])
                                               [0..<shape a ! 1])))))"

text \<open>
  \<^verbatim>\<open>np.transpose(a, order)\<close>: axis \<open>k\<close> of the result is axis \<open>order ! k\<close> of \<open>a\<close>.
\<close>

fun index_of :: "'a list \<Rightarrow> 'a \<Rightarrow> nat" where
  "index_of [] y = 0"
| "index_of (x # xs) y = (if x = y then 0 else Suc (index_of xs y))"

definition transpose_axes :: "'a ndarray \<Rightarrow> nat list \<Rightarrow> 'a ndarray" where
  "transpose_axes a order =
     mk (map (\<lambda>k. shape a ! k) order)
        (\<lambda>idx. item a (map (\<lambda>m. idx ! index_of order m) [0..<ndim a]))"

text \<open>
  \<^verbatim>\<open>np.moveaxis(a, source, destination)\<close> with one non-negative axis each: the other
  axes keep their order and \<open>source\<close> is inserted at position \<open>destination\<close>.
\<close>

definition moveaxis :: "'a ndarray \<Rightarrow> nat \<Rightarrow> nat \<Rightarrow> error + 'a ndarray" where
  "moveaxis a source destination =
     (if ndim a \<le> source \<or> ndim a \<le> destination then Inl AxisError
      else let order = filter (\<lambda>n. n \<noteq> source) [0..<ndim a]
           in Inr (transpose_axes a (take destination order @ [source] @ drop destination order)))"

text \<open>
  Python's slice bounds: a negative bound counts from the end, and both are clipped to
  the length. \<^verbatim>\<open>a[start:stop] = v\<close> on a 1-dimensional array writes \<open>v\<close> at the
  positions from the clipped start up to, not including, the clipped stop.
\<close>

definition slice_bound :: "int \<Rightarrow> int \<Rightarrow> int" where
  "slice_bound n k = (if k < 0 then max 0 (k + n) else min k n)"

definition setslice :: "'a ndarray \<Rightarrow> int \<Rightarrow> int \<Rightarrow> 'a \<Rightarrow> 'a ndarray" where
  "setslice a start stop v =
     (let n = int (shape a ! 0); lo = slice_bound n start; hi = slice_bound n stop
      in a\<lparr>buf := map (\<lambda>j. if lo \<le> int j \<and> int j < hi then v else buf a ! j)
                       [0..<length (buf a)]\<rparr>)"

text \<open>
  \<^verbatim>\<open>a[mask]\<close> with a 1-dimensional boolean \<open>mask\<close>: the rows (positions of axis 0) of
  \<open>a\<close> where the mask is true, in increasing order. An array with no axis and a mask whose
  length is not the length of axis 0 are IndexErrors.
\<close>

definition row :: "'a ndarray \<Rightarrow> nat \<Rightarrow> 'a list" where
  "row a i = take (prod_list (tl (shape a))) (drop (i * prod_list (tl (shape a))) (buf a))"

definition getitem_mask :: "'a ndarray \<Rightarrow> bool ndarray \<Rightarrow> error + 'a ndarray" where
  "getitem_mask a msk =
     (if ndim a = 0 then Inl IndexError
      else if shape a ! 0 \<noteq> shape msk ! 0 then Inl IndexError
      else let sel = filter (\<lambda>i. buf msk ! i) [0..<shape a ! 0]
           in Inr \<lparr>shape = length sel # tl (shape a), buf = concat (map (row a) sel)\<rparr>)"

section \<open>The transformers\<close>

text \<open>
  \<^verbatim>\<open>Transformer._apply_window(self, data, bin_size)\<close>. Reading \<^verbatim>\<open>data.shape[1]\<close> of an
  array with fewer than two axes is an IndexError.
\<close>

definition apply_window :: "'a ndarray \<Rightarrow> int \<Rightarrow> error + 'a ndarray" where
  "apply_window x bin_size =
     (if ndim x < 2 then Inl IndexError
      else let rows = int (shape x ! 0); cols = int (shape x ! 1);
               window_shape = [rows, cols, bin_size]
           in case sliding_window_view x window_shape of
                Inl e \<Rightarrow> Inl e
              | Inr v \<Rightarrow> reshape_infer v [rows, cols, bin_size])"

text \<open>
  \<^verbatim>\<open>Variation(bin_size).__call__(data, slice, file)\<close>; the \<^verbatim>\<open>slice\<close> and \<^verbatim>\<open>file\<close>
  arguments are not read, and the \<^verbatim>\<open>print\<close> of the class name is not modelled.
\<close>

definition Variation_call :: "int \<Rightarrow> 'a::linordered_idom ndarray \<Rightarrow> error + 'a ndarray" where
  "Variation_call bin_size x =
     (if ndim x < 3 then Inr x
      else case apply_window x bin_size of
             Inl e \<Rightarrow> Inl e
           | Inr windows \<Rightarrow>
               (case np_max (np_abs windows) 3 of
                  Inl e \<Rightarrow> Inl e
                | Inr hi \<Rightarrow>
                    (case np_min (np_abs windows) 3 of
                       Inl e \<Rightarrow> Inl e
                     | Inr lo \<Rightarrow> Inr (np_subtract hi lo))))"

definition Amplitude_call :: "int \<Rightarrow> 'a::linordered_idom ndarray \<Rightarrow> error + 'a ndarray" where
  "Amplitude_call bin_size x =
     (if ndim x < 3 then Inr x
      else case apply_window x bin_size of
             Inl e \<Rightarrow> Inl e
           | Inr windows \<Rightarrow> np_max (np_abs windows) 3)"

definition Energy_call :: "int \<Rightarrow> 'a::linordered_idom ndarray \<Rightarrow> error + 'a ndarray" where
  "Energy_call bin_size x =
     (if ndim x < 3 then Inr x
      else case apply_window x bin_size of
             Inl e \<Rightarrow> Inl e
           | Inr windows \<Rightarrow> np_sum (np_square windows) 3)"

text \<open>\<^verbatim>\<open>Raw.__call__\<close>: \<^verbatim>\<open>return np.moveaxis(data, 2, 0)\<close>.\<close>

definition Raw_call :: "'a ndarray \<Rightarrow> error + 'a ndarray" where
  "Raw_call x = moveaxis x 2 0"

text \<open>
  \<^verbatim>\<open>DetectArtifacts.__call__\<close> returns its numeric input when it has fewer than three
  axes and a boolean mask otherwise.
\<close>

datatype 'a array_value = Numeric "'a ndarray" | Boolean "bool ndarray"

definition DetectArtifacts_call ::
  "'a::linordered_field ndarray \<Rightarrow> 'a recording \<Rightarrow> error + 'a array_value" where
  "DetectArtifacts_call x fl =
     (if ndim x < 3 then Inr (Numeric x)
      else let up_limit = convert fl (max_volt fl) * 0.98;
               out_bounds = map_array (\<lambda>v. up_limit < v) x
           in case np_sum_axes_1_2 out_bounds of
                Inl e \<Rightarrow> Inl e
              | Inr counts \<Rightarrow> Inr (Boolean (map_array (\<lambda>n. 80 < n) counts)))"

text \<open>
  \<^verbatim>\<open>Shutter(data, delay_ms)\<close> keeps its two arguments. The loop of \<^verbatim>\<open>__call__\<close>,
  \<^verbatim>\<open>for i in range(len(mask) - 1, 0, -1)\<close>, visits the indices from the last one down
  to 1; \<open>shutter_loop k\<close> is the part of it that visits \<open>k\<close> down to 1. The mask is
  written in place, so the call returns the mask as it leaves it together with its
  result; \<^verbatim>\<open>len\<close> of an array with no axis is a TypeError.
\<close>

record ('n, 'a) Shutter =
  self_delay_ms :: 'n
  self_data :: "'a ndarray"

fun shutter_loop :: "nat \<Rightarrow> int \<Rightarrow> bool ndarray \<Rightarrow> bool ndarray" where
  "shutter_loop 0 delay msk = msk"
| "shutter_loop (Suc k) delay msk =
     shutter_loop k delay
       (if item msk [Suc k] then setslice msk (int (Suc k)) (int (Suc k) + delay) True
        else msk)"

definition Shutter_call ::
  "('n::floor_ceiling, 'a) Shutter \<Rightarrow> bool ndarray \<Rightarrow> 'n recording
     \<Rightarrow> bool ndarray \<times> (error + 'a ndarray)" where
  "Shutter_call self msk fl =
     (if 1 < ndim msk then (msk, Inl ValueError)
      else let delay = ms_to_idx fl (self_delay_ms self)
           in if ndim msk = 0 then (msk, Inl TypeError)
              else let msk' = shutter_loop (shape msk ! 0 - 1) delay msk
                   in (msk', getitem_mask (self_data self) msk'))"

section \<open>Example inputs\<close>

text \<open>
  A recording with sampling rate 1, \<open>max_volt = 10\<close> and the identity as \<^verbatim>\<open>convert\<close>;
  a mask of six sweeps with sweep 2 flagged; a dataset of six rows; a recording of two
  sweeps, one channel and four samples.
\<close>

abbreviation (input) unit_rate :: "rat recording" where
  "unit_rate \<equiv> \<lparr>sampling_rate = 1, max_volt = 10, convert = (\<lambda>v. v)\<rparr>"

abbreviation (input) mask_at_2 :: "bool ndarray" where
  "mask_at_2 \<equiv> \<lparr>shape = [6], buf = [False, False, True, False, False, False]\<rparr>"

abbreviation (input) six_rows :: "int ndarray" where
  "six_rows \<equiv> \<lparr>shape = [6, 2], buf = [0, 1, 10, 11, 20, 21, 30, 31, 40, 41, 50, 51]\<rparr>"


section \<open>Facts about arrays\<close>

lemma length_tabulate: "length (tabulate sh f) = prod_list sh"
  by (induction sh arbitrary: f) (simp_all add: length_concat comp_def sum_list_triv)

lemma nth_concat_uniform:
  assumes "\<forall>x \<in> set xs. length (g x) = m" and "i < length xs" and "j < m"
  shows "concat (map g xs) ! (i * m + j) = g (xs ! i) ! j"
  using assms
proof (induction xs arbitrary: i)
  case Nil
  then show ?case by simp
next
  case (Cons x xs)
  show ?case
  proof (cases i)
    case 0
    with Cons.prems show ?thesis by (simp add: nth_append)
  next
    case (Suc k)
    with Cons.prems have "concat (map g xs) ! (k * m + j) = g (xs ! k) ! j"
      by (intro Cons.IH) auto
    with Suc Cons.prems show ?thesis by (simp add: nth_append add.assoc)
  qed
qed

lemma in_bounds_Nil [simp]: "in_bounds [] idx \<longleftrightarrow> idx = []"
  by (simp add: in_bounds_def)

lemma in_bounds_Cons: "in_bounds (d # ds) idx \<longleftrightarrow> (\<exists>i js. idx = i # js \<and> i < d \<and> in_bounds ds js)"
  by (simp add: in_bounds_def list_all2_Cons2)

lemma in_bounds_Cons_Cons [simp]: "in_bounds (d # ds) (i # js) \<longleftrightarrow> i < d \<and> in_bounds ds js"
  by (simp add: in_bounds_def)

lemma ravel_less: "in_bounds sh idx \<Longrightarrow> ravel sh idx < prod_list sh"
proof (induction sh arbitrary: idx)
  case Nil
  then show ?case by simp
next
  case (Cons d ds)
  then obtain i js where idx: "idx = i # js" "i < d" "in_bounds ds js"
    by (auto simp: in_bounds_Cons)
  then have "ravel ds js < prod_list ds" by (simp add: Cons.IH)
  moreover have "i * prod_list ds + prod_list ds \<le> d * prod_list ds"
    using idx(2) by (metis Suc_leI mult_Suc mult_le_mono1 add.commute)
  ultimately show ?case using idx by simp
qed

lemma tabulate_nth: "in_bounds sh idx \<Longrightarrow> tabulate sh f ! ravel sh idx = f idx"
proof (induction sh arbitrary: idx f)
  case Nil
  then show ?case by simp
next
  case (Cons d ds)
  then obtain i js where idx: "idx = i # js" "i < d" "in_bounds ds js"
    by (auto simp: in_bounds_Cons)
  have "concat (map (\<lambda>i. tabulate ds (\<lambda>js. f (i # js))) [0..<d]) ! (i * prod_list ds + ravel ds js)
        = tabulate ds (\<lambda>js. f (([0..<d] ! i) # js)) ! ravel ds js"
    using idx by (intro nth_concat_uniform) (simp_all add: length_tabulate ravel_less)
  then show ?case using idx by (simp add: Cons.IH)
qed

lemma tabulate_cong:
  "(\<And>idx. in_bounds sh idx \<Longrightarrow> f idx = g idx) \<Longrightarrow> tabulate sh f = tabulate sh g"
proof (induction sh arbitrary: f g)
  case Nil
  then show ?case by simp
next
  case (Cons d ds)
  have "tabulate ds (\<lambda>js. f (i # js)) = tabulate ds (\<lambda>js. g (i # js))" if "i < d" for i
    using that by (intro Cons.IH Cons.prems) simp
  then have "map (\<lambda>i. tabulate ds (\<lambda>js. f (i # js))) [0..<d]
             = map (\<lambda>i. tabulate ds (\<lambda>js. g (i # js))) [0..<d]"
    by simp
  then show ?case by (simp only: tabulate.simps)
qed

lemma concat_chunks:
  "concat (map (\<lambda>i. take p (drop (off + i * p) b)) [0..<d]) = take (d * p) (drop off b)"
proof (induction d)
  case 0
  then show ?case by simp
next
  case (Suc d)
  have "concat (map (\<lambda>i. take p (drop (off + i * p) b)) [0..<Suc d])
        = take (d * p) (drop off b) @ take p (drop (off + d * p) b)"
    using Suc by simp
  also have "drop (off + d * p) b = drop (d * p) (drop off b)"
    by (simp add: add.commute)
  also have "take (d * p) (drop off b) @ take p (drop (d * p) (drop off b))
             = take (d * p + p) (drop off b)"
    by (rule take_add [symmetric])
  also have "d * p + p = Suc d * p"
    by simp
  finally show ?case .
qed

lemma tabulate_offset:
  "off + prod_list sh \<le> length b \<Longrightarrow>
     tabulate sh (\<lambda>idx. b ! (off + ravel sh idx)) = take (prod_list sh) (drop off b)"
proof (induction sh arbitrary: off)
  case Nil
  then show ?case by (simp add: take_Suc_conv_app_nth)
next
  case (Cons d ds)
  have "tabulate ds (\<lambda>js. b ! (off + (i * prod_list ds + ravel ds js)))
        = take (prod_list ds) (drop (off + i * prod_list ds) b)" if "i < d" for i
  proof -
    have "i * prod_list ds + prod_list ds \<le> d * prod_list ds"
      using that by (metis Suc_leI mult_Suc mult_le_mono1 add.commute)
    with Cons.prems have "off + i * prod_list ds + prod_list ds \<le> length b" by simp
    from Cons.IH [OF this] show ?thesis by (simp add: add.assoc)
  qed
  then have "map (\<lambda>i. tabulate ds (\<lambda>js. b ! (off + (i * prod_list ds + ravel ds js)))) [0..<d]
        = map (\<lambda>i. take (prod_list ds) (drop (off + i * prod_list ds) b)) [0..<d]"
    by simp
  then have "tabulate (d # ds) (\<lambda>idx. b ! (off + ravel (d # ds) idx))
        = concat (map (\<lambda>i. take (prod_list ds) (drop (off + i * prod_list ds) b)) [0..<d])"
    by (simp only: tabulate.simps ravel.simps)
  then show ?case by (simp add: concat_chunks)
qed

lemma tabulate_buf: "length b = prod_list sh \<Longrightarrow> tabulate sh (\<lambda>idx. b ! ravel sh idx) = b"
  using tabulate_offset [of 0 sh b] by simp

lemma shape_mk [simp]: "shape (mk sh f) = sh"
  by (simp add: mk_def)

lemma item_mk: "in_bounds sh idx \<Longrightarrow> item (mk sh f) idx = f idx"
  by (simp add: mk_def item_def tabulate_nth)


lemma upt_3: "[0..<3] = [0, 1, 2]"
  by (simp add: upt_rec)

lemma in_bounds3 [simp]: "in_bounds [a, b, c] idx \<longleftrightarrow> (\<exists>i j k. idx = [i, j, k] \<and> i < a \<and> j < b \<and> k < c)"
  by (auto simp: in_bounds_Cons)

lemma Raw_call_3d:
  assumes "shape x = [S, C, N]"
  shows "Raw_call x = Inr (mk [N, S, C] (\<lambda>idx. item x [idx ! 1, idx ! 2, idx ! 0]))"
  using assms by (simp add: Raw_call_def moveaxis_def ndim_def upt_3 transpose_axes_def numeral_2_eq_2)

lemma moveaxis_0_2_3d:
  assumes "shape r = [N, S, C]"
  shows "moveaxis r 0 2 = Inr (mk [S, C, N] (\<lambda>idx. item r [idx ! 2, idx ! 0, idx ! 1]))"
  using assms by (simp add: moveaxis_def ndim_def upt_3 transpose_axes_def numeral_2_eq_2)

lemma passthrough:
  fixes x :: "'a::linordered_field ndarray"
  assumes "ndim x < 3"
  shows "Variation_call b x = Inr x" "Amplitude_call b x = Inr x" "Energy_call b x = Inr x"
    "DetectArtifacts_call x fl = Inr (Numeric x)"
  using assms
  by (simp_all add: Variation_call_def Amplitude_call_def Energy_call_def DetectArtifacts_call_def)

lemma Raw_call_low: "ndim x < 3 \<Longrightarrow> Raw_call x = Inl AxisError"
  by (simp add: Raw_call_def moveaxis_def)

section \<open>Facts about the transformers\<close>

lemma ndim_3: "shape x = [S, C, N] \<Longrightarrow> ndim x = 3"
  by (simp add: ndim_def)

lemma in_bounds4 [simp]:
  "in_bounds [a, b, c, d] idx \<longleftrightarrow> (\<exists>i j k l. idx = [i, j, k, l] \<and> i < a \<and> j < b \<and> k < c \<and> l < d)"
  by (auto simp: in_bounds_Cons)

lemma apply_window_3d:
  assumes sh: "shape x = [S, C, N]" and pos: "0 < S" "0 < C" and b: "1 \<le> b" "b \<le> int N"
  shows "\<exists>w. apply_window x b = Inr w
             \<and> shape w = [N - nat b + 1, S, C, nat b] \<and> well_formed w
             \<and> (\<forall>k s c j. k < N - nat b + 1 \<and> s < S \<and> c < C \<and> j < nat b
                   \<longrightarrow> item w [k, s, c, j] = item x [s, c, k + j])"
proof -
  define W where "W = N - nat b + 1"
  define f where "f = (\<lambda>idx. item x (map (\<lambda>(t, w). t + w) (zip (take 3 idx) (drop 3 idx))))"
  define w where "w = \<lparr>shape = [W, S, C, nat b], buf = tabulate [1, 1, W, S, C, nat b] f\<rparr>"
  have Weq: "nat (int N - (b - 1)) = W"
    using b unfolding W_def by linarith
  have sw: "sliding_window_view x [int S, int C, b] = Inr (mk [1, 1, W, S, C, nat b] f)"
    using sh b by (simp add: sliding_window_view_def ndim_3 Weq f_def)
  have nz: "S * (C * nat b) \<noteq> 0"
    using pos b by simp
  have call: "apply_window x b = Inr w"
    using sh nz
    by (simp add: apply_window_def ndim_3 sw reshape_infer_def size_of_def mk_def w_def
        del: tabulate.simps)
  have wf: "well_formed w"
    by (simp add: well_formed_def w_def length_tabulate del: tabulate.simps)
  have shw: "shape w = [N - nat b + 1, S, C, nat b]"
    by (simp add: w_def W_def)
  have items: "item w [k, s, c, j] = item x [s, c, k + j]"
    if "k < N - nat b + 1" "s < S" "c < C" "j < nat b" for k s c j
  proof -
    have kW: "k < W" using that(1) by (simp add: W_def)
    have "ravel [W, S, C, nat b] [k, s, c, j] = ravel [1, 1, W, S, C, nat b] [0, 0, k, s, c, j]"
      by simp
    moreover have "in_bounds [1, 1, W, S, C, nat b] [0, 0, k, s, c, j]"
      using that kW by simp
    ultimately have "item w [k, s, c, j] = f [0, 0, k, s, c, j]"
      by (simp only: item_def w_def ndarray.simps tabulate_nth)
    then show ?thesis
      by (simp add: f_def numeral_3_eq_3)
  qed
  with call wf shw show ?thesis
    by blast
qed



lemma shape_map_array [simp]: "shape (map_array g a) = shape a"
  by (simp add: map_array_def)

lemma well_formed_map_array: "well_formed a \<Longrightarrow> well_formed (map_array g a)"
  by (simp add: well_formed_def map_array_def)















lemma item_1d: "shape m = [L] \<Longrightarrow> item m [i] = buf m ! i"
  by (simp add: item_def)

lemma shape_setslice [simp]: "shape (setslice m a b v) = shape m"
  by (simp add: setslice_def Let_def)

lemma length_setslice [simp]: "length (buf (setslice m a b v)) = length (buf m)"
  by (simp add: setslice_def Let_def)

lemma nth_setslice:
  "j < length (buf m) \<Longrightarrow>
   buf (setslice m a b v) ! j
     = (if slice_bound (int (shape m ! 0)) a \<le> int j \<and> int j < slice_bound (int (shape m ! 0)) b
        then v else buf m ! j)"
  by (simp add: setslice_def Let_def)

lemma shutter_loop_shape:
  "shape (shutter_loop k d m) = shape m \<and> length (buf (shutter_loop k d m)) = length (buf m)"
  by (induction k arbitrary: m) simp_all

lemma shutter_loop_nth:
  assumes "shape m = [L]" and "length (buf m) = L" and "k \<le> L - 1" and "j < L"
  shows "buf (shutter_loop k d m) ! j
         = (buf m ! j \<or> (\<exists>i. 1 \<le> i \<and> i \<le> k \<and> i \<le> j \<and> buf m ! i
                              \<and> int j < slice_bound (int L) (int i + d)))"
  using assms
proof (induction k arbitrary: m)
  case 0
  then show ?case by simp
next
  case (Suc k)
  define m1 where "m1 = (if item m [Suc k] then setslice m (int (Suc k)) (int (Suc k) + d) True else m)"
  have kL: "Suc k < L" using Suc.prems by simp
  have sh1: "shape m1 = [L]" "length (buf m1) = L"
    using Suc.prems by (simp_all add: m1_def)
  have lo: "slice_bound (int L) (int (Suc k)) = int (Suc k)"
    using kL by (simp add: slice_bound_def)
  have m1_nth: "buf m1 ! i = (buf m ! i \<or> (buf m ! Suc k \<and> Suc k \<le> i
                    \<and> int i < slice_bound (int L) (int (Suc k) + d)))" if "i < L" for i
    using that Suc.prems(1,2) lo
    by (auto simp add: m1_def item_1d nth_setslice simp del: of_nat_Suc)
  have low: "buf m1 ! i = buf m ! i" if "i \<le> k" for i
    using that kL by (simp add: m1_nth)
  have "buf (shutter_loop (Suc k) d m) ! j = buf (shutter_loop k d m1) ! j"
    by (simp add: m1_def)
  also have "\<dots> = (buf m1 ! j \<or> (\<exists>i. 1 \<le> i \<and> i \<le> k \<and> i \<le> j \<and> buf m1 ! i
                              \<and> int j < slice_bound (int L) (int i + d)))"
    using sh1 Suc.prems by (intro Suc.IH) simp_all
  also have "\<dots> = (buf m ! j \<or> (\<exists>i. 1 \<le> i \<and> i \<le> Suc k \<and> i \<le> j \<and> buf m ! i
                              \<and> int j < slice_bound (int L) (int i + d)))"
    using m1_nth [OF Suc.prems(4)] low
    by (metis le_Suc_eq le_add1 plus_1_eq_Suc)
  finally show ?case .
qed

lemma take_drop_concat_uniform:
  assumes "\<forall>x \<in> set xs. length (g x) = p" and "k < length xs"
  shows "take p (drop (k * p) (concat (map g xs))) = g (xs ! k)"
  using assms
proof (induction xs arbitrary: k)
  case Nil
  then show ?case by simp
next
  case (Cons x xs)
  show ?case
  proof (cases k)
    case 0
    with Cons.prems show ?thesis by simp
  next
    case (Suc k')
    with Cons.prems have "take p (drop (k' * p) (concat (map g xs))) = g (xs ! k')"
      by (intro Cons.IH) auto
    with Suc Cons.prems show ?thesis by simp
  qed
qed

lemma length_row:
  assumes "well_formed a" and "shape a = L # rest" and "i < L"
  shows "length (row a i) = prod_list rest"
proof -
  have "i * prod_list rest + prod_list rest \<le> L * prod_list rest"
    using assms(3) by (metis Suc_leI mult_Suc mult_le_mono1 add.commute)
  then show ?thesis
    using assms by (simp add: row_def well_formed_def)
qed

lemma getitem_mask_rows:
  assumes wf: "well_formed a" and sh: "shape a = L # rest" and shm: "shape m = [L]"
  defines "sel \<equiv> filter (\<lambda>j. item m [j]) [0..<L]"
  shows "\<exists>r. getitem_mask a m = Inr r \<and> shape r = length sel # rest
             \<and> (\<forall>k < length sel. row r k = row a (sel ! k))"
proof -
  have sel: "sel = filter (\<lambda>i. buf m ! i) [0..<L]"
    using shm by (simp add: sel_def item_1d)
  define r where "r = \<lparr>shape = length sel # rest, buf = concat (map (row a) sel)\<rparr>"
  have call: "getitem_mask a m = Inr r"
    using sh shm by (simp add: getitem_mask_def ndim_def sel r_def Let_def)
  have len: "\<forall>i \<in> set sel. length (row a i) = prod_list rest"
    using wf sh by (auto simp: sel_def length_row)
  have "row r k = row a (sel ! k)" if "k < length sel" for k
  proof -
    have "row r k = take (prod_list rest) (drop (k * prod_list rest) (concat (map (row a) sel)))"
      by (simp add: row_def r_def)
    also have "\<dots> = row a (sel ! k)"
      using len that by (rule take_drop_concat_uniform)
    finally show ?thesis .
  qed
  with call show ?thesis by (auto simp: r_def)
qed

lemma slice_bound_nonneg: "0 \<le> k \<Longrightarrow> slice_bound n k = min k n"
  by (simp add: slice_bound_def)

lemma Shutter_call_1d:
  assumes "shape msk = [L]"
  shows "Shutter_call self msk fl =
     (shutter_loop (L - 1) (ms_to_idx fl (self_delay_ms self)) msk,
      getitem_mask (self_data self) (shutter_loop (L - 1) (ms_to_idx fl (self_delay_ms self)) msk))"
  using assms by (simp add: Shutter_call_def ndim_def Let_def)

section \<open>Properties\<close>

text \<open>
  C1. The claim is that a flagged entry at index \<open>i\<close> flags the entries from \<open>i\<close> through
  \<open>i + d\<close> inclusive, so that the mask \<open>[0,0,1,0,0,0]\<close> with a delay of 2 indices becomes
  \<open>[0,0,1,1,1,0]\<close> and rows 2, 3, 4 are returned. The code writes the slice
  \<^verbatim>\<open>mask[i : i + delay]\<close>, whose end is exclusive: with a delay of 2 the mask becomes
  \<open>[0,0,1,1,0,0]\<close> and rows 2 and 3 are returned.
\<close>

theorem Shutter_inclusive_end_counterexample:
  "ms_to_idx unit_rate (2 / 1000) = 2
   \<and> Shutter_call \<lparr>self_delay_ms = 2 / 1000, self_data = six_rows\<rparr> mask_at_2 unit_rate
       = (\<lparr>shape = [6], buf = [False, False, True, True, False, False]\<rparr>,
          Inr \<lparr>shape = [2, 2], buf = [20, 21, 30, 31]\<rparr>)"
  by code_simp

text \<open>
  C1, as amended. Take a 1-dimensional boolean mask of length \<open>L\<close> whose entry 0 is not
  flagged, a dataset with \<open>L\<close> rows and the computed delay \<open>d\<close>. The call leaves a mask in
  which entry \<open>j\<close> is flagged exactly when it was flagged or some entry \<open>i \<le> j\<close> was
  flagged and \<open>j\<close> is before the end of the slice \<open>i : i + d\<close> (for \<open>d \<ge> 0\<close>: when
  \<open>j < i + d\<close>), and it returns the rows of the dataset at the flagged indices, in
  increasing order of the index.
\<close>

theorem Shutter_expands_and_selects:
  fixes self :: "('n::floor_ceiling, 'a) Shutter"
  assumes shm: "shape msk = [L]" and wfm: "well_formed msk"
    and shd: "shape (self_data self) = L # rest" and wfd: "well_formed (self_data self)"
    and first: "\<not> (0 < L \<and> item msk [0])"
  shows "\<exists>m r. Shutter_call self msk fl = (m, Inr r)
           \<and> shape m = [L] \<and> well_formed m
           \<and> (\<forall>j<L. item m [j]
                = (item msk [j]
                   \<or> (\<exists>i\<le>j. item msk [i]
                         \<and> int j < slice_bound (int L) (int i + ms_to_idx fl (self_delay_ms self)))))
           \<and> (0 \<le> ms_to_idx fl (self_delay_ms self) \<longrightarrow>
                (\<forall>j<L. item m [j]
                   = (item msk [j]
                      \<or> (\<exists>i\<le>j. item msk [i] \<and> int j < int i + ms_to_idx fl (self_delay_ms self)))))
           \<and> shape r = length (filter (\<lambda>j. item m [j]) [0..<L]) # rest
           \<and> (\<forall>k < length (filter (\<lambda>j. item m [j]) [0..<L]).
                 row r k = row (self_data self) (filter (\<lambda>j. item m [j]) [0..<L] ! k))"
proof -
  define d where "d = ms_to_idx fl (self_delay_ms self)"
  define m where "m = shutter_loop (L - 1) d msk"
  have len: "length (buf msk) = L"
    using shm wfm by (simp add: well_formed_def)
  have shm': "shape m = [L]" and len': "length (buf m) = L"
    using shm len by (simp_all add: m_def shutter_loop_shape)
  have wf': "well_formed m"
    using shm' len' by (simp add: well_formed_def)
  have expand: "item m [j] = (item msk [j]
        \<or> (\<exists>i\<le>j. item msk [i] \<and> int j < slice_bound (int L) (int i + d)))" if "j < L" for j
  proof -
    have "buf m ! j = (buf msk ! j \<or> (\<exists>i. 1 \<le> i \<and> i \<le> L - 1 \<and> i \<le> j \<and> buf msk ! i
                              \<and> int j < slice_bound (int L) (int i + d)))"
      unfolding m_def using shm len that by (intro shutter_loop_nth) simp_all
    also have "\<dots> = (buf msk ! j \<or> (\<exists>i\<le>j. buf msk ! i \<and> int j < slice_bound (int L) (int i + d)))"
    proof -
      have "\<not> buf msk ! 0"
        using first that shm by (simp add: item_1d)
      then have "1 \<le> i" if "buf msk ! i" for i
        using that by (cases i) auto
      moreover have "i \<le> L - 1" if "i \<le> j" for i
        using that \<open>j < L\<close> by simp
      ultimately show ?thesis by blast
    qed
    finally show ?thesis
      using shm shm' by (simp add: item_1d)
  qed
  have expand_nonneg: "item m [j] = (item msk [j] \<or> (\<exists>i\<le>j. item msk [i] \<and> int j < int i + d))"
    if "0 \<le> d" "j < L" for j
  proof -
    have "int j < slice_bound (int L) (int i + d) \<longleftrightarrow> int j < int i + d" for i
      using that by (simp add: slice_bound_nonneg)
    then show ?thesis
      using expand [OF that(2)] by simp
  qed
  from getitem_mask_rows [OF wfd shd shm'] obtain r where r:
    "getitem_mask (self_data self) m = Inr r"
    "shape r = length (filter (\<lambda>j. item m [j]) [0..<L]) # rest"
    "\<forall>k < length (filter (\<lambda>j. item m [j]) [0..<L]).
        row r k = row (self_data self) (filter (\<lambda>j. item m [j]) [0..<L] ! k)"
    by blast
  have "Shutter_call self msk fl = (m, Inr r)"
    using r(1) by (simp add: Shutter_call_1d [OF shm] m_def d_def)
  with shm' wf' expand expand_nonneg r(2,3) show ?thesis
    unfolding d_def by blast
qed

theorem Shutter_expands_and_selects_witness:
  "shape mask_at_2 = [6] \<and> well_formed mask_at_2
   \<and> shape (self_data \<lparr>self_delay_ms = 3 / 1000 :: rat, self_data = six_rows\<rparr>) = 6 # [2]
   \<and> well_formed (self_data \<lparr>self_delay_ms = 3 / 1000 :: rat, self_data = six_rows\<rparr>)
   \<and> \<not> (0 < (6::nat) \<and> item mask_at_2 [0])
   \<and> ms_to_idx unit_rate (3 / 1000) = 3
   \<and> (\<exists>m r. Shutter_call \<lparr>self_delay_ms = 3 / 1000, self_data = six_rows\<rparr> mask_at_2 unit_rate
                = (m, Inr r)
          \<and> m = \<lparr>shape = [6], buf = [False, False, True, True, True, False]\<rparr>
          \<and> r = \<lparr>shape = [3, 2], buf = [20, 21, 30, 31, 40, 41]\<rparr>
          \<and> (\<forall>j<6. item m [j]
                = (item mask_at_2 [j] \<or> (\<exists>i\<le>j. item mask_at_2 [i] \<and> int j < int i + 3)))
          \<and> (\<forall>k < length (filter (\<lambda>j. item m [j]) [0..<6]).
                 row r k = row six_rows (filter (\<lambda>j. item m [j]) [0..<6] ! k)))"
proof -
  let ?self = "\<lparr>self_delay_ms = 3 / 1000 :: rat, self_data = six_rows\<rparr>"
  have h1: "shape mask_at_2 = [6]" by simp
  have h2: "well_formed mask_at_2" by (simp add: well_formed_def)
  have h3: "shape (self_data ?self) = 6 # [2]" by simp
  have h4: "well_formed (self_data ?self)" by (simp add: well_formed_def)
  have h5: "\<not> (0 < (6::nat) \<and> item mask_at_2 [0])" by (simp add: item_def)
  have d: "ms_to_idx unit_rate (self_delay_ms ?self) = 3"
    by (simp add: ms_to_idx_def py_int_def)
  from Shutter_expands_and_selects [OF h1 h2 h3 h4 h5, of unit_rate] obtain m r where mr:
    "Shutter_call ?self mask_at_2 unit_rate = (m, Inr r)"
    "0 \<le> ms_to_idx unit_rate (self_delay_ms ?self) \<longrightarrow>
       (\<forall>j<6. item m [j] = (item mask_at_2 [j]
            \<or> (\<exists>i\<le>j. item mask_at_2 [i] \<and> int j < int i + ms_to_idx unit_rate (self_delay_ms ?self))))"
    "\<forall>k < length (filter (\<lambda>j. item m [j]) [0..<6]).
        row r k = row (self_data ?self) (filter (\<lambda>j. item m [j]) [0..<6] ! k)"
    by blast
  have ev: "Shutter_call ?self mask_at_2 unit_rate
            = (\<lparr>shape = [6], buf = [False, False, True, True, True, False]\<rparr>,
               Inr \<lparr>shape = [3, 2], buf = [20, 21, 30, 31, 40, 41]\<rparr>)"
    by code_simp
  from mr(1) ev have m: "m = \<lparr>shape = [6], buf = [False, False, True, True, True, False]\<rparr>"
    and r: "r = \<lparr>shape = [3, 2], buf = [20, 21, 30, 31, 40, 41]\<rparr>"
    by simp_all
  from mr(2) d have e: "\<forall>j<6. item m [j]
        = (item mask_at_2 [j] \<or> (\<exists>i\<le>j. item mask_at_2 [i] \<and> int j < int i + 3))"
    by simp
  from mr(3) have s: "\<forall>k < length (filter (\<lambda>j. item m [j]) [0..<6]).
        row r k = row six_rows (filter (\<lambda>j. item m [j]) [0..<6] ! k)"
    by simp
  have d': "ms_to_idx unit_rate (3 / 1000) = 3"
    using d by simp
  show ?thesis
    using h1 h2 h3 h4 h5 d' mr(1) m r e s by blast
qed

text \<open>
  C2. The claim is that window extraction gives \<open>N - b + 1\<close> windows for every
  3-dimensional array and every \<open>1 \<le> b \<le> N\<close>. With no sweep (or no channel) the lengths
  \<open>(rows, cols, bin_size)\<close> given to \<^verbatim>\<open>reshape(-1, rows, cols, bin_size)\<close> multiply to zero, the
  first length cannot be inferred and the call raises.
\<close>

theorem apply_window_empty_counterexample:
  "shape \<lparr>shape = [0, 1, 2], buf = ([] :: int list)\<rparr> = [0, 1, 2]
   \<and> (1::int) \<le> 1 \<and> (1::int) \<le> int 2
   \<and> apply_window \<lparr>shape = [0, 1, 2], buf = ([] :: int list)\<rparr> 1 = Inl ValueError"
  by (simp add: apply_window_def ndim_def sliding_window_view_def reshape_infer_def)

text \<open>
  C2, as amended. For an array of shape \<open>(S, C, N)\<close> with \<open>S \<ge> 1\<close>, \<open>C \<ge> 1\<close> and
  \<open>1 \<le> b \<le> N\<close>, window extraction returns an array of shape \<open>(N - b + 1, S, C, b)\<close>:
  \<open>N - b + 1\<close> windows of shape \<open>(S, C, b)\<close>, and sample \<open>j\<close> of window \<open>k\<close> is sample
  \<open>k + j\<close> of the same sweep and channel.
\<close>

theorem apply_window_windows:
  assumes "shape x = [S, C, N]" and "0 < S" and "0 < C" and "1 \<le> b" and "b \<le> int N"
  shows "\<exists>w. apply_window x b = Inr w
             \<and> shape w = [N - nat b + 1, S, C, nat b]
             \<and> (\<forall>k < N - nat b + 1. \<forall>s<S. \<forall>c<C. \<forall>j < nat b.
                   item w [k, s, c, j] = item x [s, c, k + j])"
proof -
  from apply_window_3d [OF assms] obtain w where
    "apply_window x b = Inr w" "shape w = [N - nat b + 1, S, C, nat b]"
    "\<forall>k s c j. k < N - nat b + 1 \<and> s < S \<and> c < C \<and> j < nat b
        \<longrightarrow> item w [k, s, c, j] = item x [s, c, k + j]"
    by blast
  then show ?thesis by blast
qed

theorem apply_window_windows_witness:
  "shape \<lparr>shape = [2, 1, 4], buf = [1, 2, 3, 4, 5, 6, 7, 8 :: int]\<rparr> = [2, 1, 4]
   \<and> (0::nat) < 2 \<and> (0::nat) < 1 \<and> (1::int) \<le> 3 \<and> (3::int) \<le> int 4
   \<and> (\<exists>w. apply_window \<lparr>shape = [2, 1, 4], buf = [1, 2, 3, 4, 5, 6, 7, 8 :: int]\<rparr> 3 = Inr w
          \<and> shape w = [2, 2, 1, 3]
          \<and> (\<forall>k<2. \<forall>s<2. \<forall>c<1. \<forall>j<3. item w [k, s, c, j]
                = item \<lparr>shape = [2, 1, 4], buf = [1, 2, 3, 4, 5, 6, 7, 8 :: int]\<rparr> [s, c, k + j]))"
  using apply_window_windows [of "\<lparr>shape = [2, 1, 4], buf = [1, 2, 3, 4, 5, 6, 7, 8 :: int]\<rparr>" 2 1 4 3]
  by (simp add: numeral_2_eq_2)







text \<open>
  C6. The claim is that every input that is not 3-dimensional is returned unchanged by the
  statistic transformers and by \<^verbatim>\<open>DetectArtifacts\<close>. The guard in the code is
  \<^verbatim>\<open>data.ndim < 3\<close>: a 4-dimensional array is not passed through. The statistic
  transformers fail on it (the window shape has three lengths for four axes) and
  \<^verbatim>\<open>DetectArtifacts\<close> returns a boolean array.
\<close>

theorem passthrough_4d_counterexample:
  "ndim \<lparr>shape = [1, 1, 1, 1], buf = [5 :: rat]\<rparr> \<noteq> 3
   \<and> Variation_call 1 \<lparr>shape = [1, 1, 1, 1], buf = [5 :: rat]\<rparr> = Inl ValueError
   \<and> Amplitude_call 1 \<lparr>shape = [1, 1, 1, 1], buf = [5 :: rat]\<rparr> = Inl ValueError
   \<and> Energy_call 1 \<lparr>shape = [1, 1, 1, 1], buf = [5 :: rat]\<rparr> = Inl ValueError
   \<and> DetectArtifacts_call \<lparr>shape = [1, 1, 1, 1], buf = [5 :: rat]\<rparr>
         \<lparr>sampling_rate = 1, max_volt = 10, convert = (\<lambda>v. v)\<rparr>
       = Inr (Boolean \<lparr>shape = [1, 1], buf = [False]\<rparr>)"
  by code_simp

text \<open>
  C6, as amended. Every input with fewer than three axes is returned unchanged by
  \<^verbatim>\<open>Variation\<close>, \<^verbatim>\<open>Amplitude\<close>, \<^verbatim>\<open>Energy\<close> and \<^verbatim>\<open>DetectArtifacts\<close>.
\<close>

theorem passthrough_below_3d:
  fixes x :: "'a::linordered_field ndarray"
  assumes "ndim x < 3"
  shows "Variation_call b x = Inr x \<and> Amplitude_call b x = Inr x \<and> Energy_call b x = Inr x
         \<and> DetectArtifacts_call x fl = Inr (Numeric x)"
  using assms by (simp add: passthrough)

theorem passthrough_below_3d_witness:
  "ndim \<lparr>shape = [2, 3], buf = [1, 2, 3, 4, 5, 6 :: rat]\<rparr> < 3
   \<and> Variation_call 2 \<lparr>shape = [2, 3], buf = [1, 2, 3, 4, 5, 6 :: rat]\<rparr>
       = Inr \<lparr>shape = [2, 3], buf = [1, 2, 3, 4, 5, 6]\<rparr>
   \<and> Amplitude_call 2 \<lparr>shape = [2, 3], buf = [1, 2, 3, 4, 5, 6 :: rat]\<rparr>
       = Inr \<lparr>shape = [2, 3], buf = [1, 2, 3, 4, 5, 6]\<rparr>
   \<and> Energy_call 2 \<lparr>shape = [2, 3], buf = [1, 2, 3, 4, 5, 6 :: rat]\<rparr>
       = Inr \<lparr>shape = [2, 3], buf = [1, 2, 3, 4, 5, 6]\<rparr>
   \<and> DetectArtifacts_call \<lparr>shape = [2, 3], buf = [1, 2, 3, 4, 5, 6 :: rat]\<rparr>
         \<lparr>sampling_rate = 1, max_volt = 10, convert = (\<lambda>v. v)\<rparr>
       = Inr (Numeric \<lparr>shape = [2, 3], buf = [1, 2, 3, 4, 5, 6]\<rparr>)"
  using passthrough_below_3d [of "\<lparr>shape = [2, 3], buf = [1, 2, 3, 4, 5, 6 :: rat]\<rparr>" 2
      "\<lparr>sampling_rate = 1, max_volt = 10, convert = (\<lambda>v. v)\<rparr>"]
  by (simp add: ndim_def)

text \<open>
  C7. The code raises its shape error, \<^verbatim>\<open>ValueError("mask must be a 1dim array.")\<close>, exactly
  when the mask has more than one axis. A mask with no axis passes the guard
  \<^verbatim>\<open>mask.ndim > 1\<close> and the call fails at \<^verbatim>\<open>len(mask)\<close> with a TypeError instead.
\<close>

theorem Shutter_scalar_mask:
  "(snd (Shutter_call self msk fl) = Inl ValueError \<longleftrightarrow> 1 < ndim msk)
   \<and> ndim \<lparr>shape = [], buf = [True]\<rparr> = 0
   \<and> Shutter_call self \<lparr>shape = [], buf = [True]\<rparr> fl
       = (\<lparr>shape = [], buf = [True]\<rparr>, Inl TypeError)"
  by (simp add: Shutter_call_def ndim_def Let_def getitem_mask_def)




text \<open>
  C9. On a 3-dimensional array of shape \<open>(S, C, N)\<close> \<^verbatim>\<open>Raw\<close> returns an array of shape
  \<open>(N, S, C)\<close> whose element \<open>(n, s, c)\<close> is element \<open>(s, c, n)\<close> of the input, so it
  holds the same values in a new layout, and moving axis 0 back to position 2 gives the
  input again.
\<close>

theorem Raw_relayout_round_trip:
  assumes "well_formed x" and "shape x = [S, C, N]"
  shows "\<exists>r. Raw_call x = Inr r \<and> shape r = [N, S, C]
             \<and> (\<forall>n<N. \<forall>s<S. \<forall>c<C. item r [n, s, c] = item x [s, c, n])
             \<and> moveaxis r 0 2 = Inr x"
proof -
  define r where "r = mk [N, S, C] (\<lambda>idx. item x [idx ! 1, idx ! 2, idx ! 0])"
  have call: "Raw_call x = Inr r"
    using assms(2) by (simp add: Raw_call_3d r_def)
  have sh: "shape r = [N, S, C]"
    by (simp add: r_def)
  have items: "item r [n, s, c] = item x [s, c, n]" if "n < N" "s < S" "c < C" for n s c
    using that by (simp add: r_def item_mk)
  have "tabulate [S, C, N] (\<lambda>idx. item r [idx ! 2, idx ! 0, idx ! 1])
        = tabulate [S, C, N] (\<lambda>idx. buf x ! ravel [S, C, N] idx)"
    by (rule tabulate_cong) (auto simp: items, simp add: item_def assms(2))
  also have "\<dots> = buf x"
    using assms by (intro tabulate_buf) (simp add: well_formed_def)
  finally have "moveaxis r 0 2 = Inr x"
    using sh assms(2) by (simp add: moveaxis_0_2_3d mk_def)
  with call sh items show ?thesis by blast
qed

theorem Raw_relayout_round_trip_witness:
  "well_formed \<lparr>shape = [2, 1, 3], buf = [1, 2, 3, 4, 5, 6 :: int]\<rparr>
   \<and> shape \<lparr>shape = [2, 1, 3], buf = [1, 2, 3, 4, 5, 6 :: int]\<rparr> = [2, 1, 3]
   \<and> (\<exists>r. Raw_call \<lparr>shape = [2, 1, 3], buf = [1, 2, 3, 4, 5, 6 :: int]\<rparr> = Inr r
          \<and> shape r = [3, 2, 1]
          \<and> (\<forall>n<3. \<forall>s<2. \<forall>c<1. item r [n, s, c]
                 = item \<lparr>shape = [2, 1, 3], buf = [1, 2, 3, 4, 5, 6 :: int]\<rparr> [s, c, n])
          \<and> moveaxis r 0 2 = Inr \<lparr>shape = [2, 1, 3], buf = [1, 2, 3, 4, 5, 6 :: int]\<rparr>)"
  using Raw_relayout_round_trip [of "\<lparr>shape = [2, 1, 3], buf = [1, 2, 3, 4, 5, 6 :: int]\<rparr>" 2 1 3]
  by (simp add: well_formed_def)

text \<open>
  C10. \<^verbatim>\<open>Raw\<close> has no passthrough: on an array with fewer than three axes the move of
  axis 2 fails, while \<^verbatim>\<open>Variation\<close>, \<^verbatim>\<open>Amplitude\<close>, \<^verbatim>\<open>Energy\<close> and
  \<^verbatim>\<open>DetectArtifacts\<close> return such an array as it is.
\<close>

theorem Raw_has_no_passthrough:
  fixes x :: "'a::linordered_field ndarray"
  assumes "ndim x < 3"
  shows "Raw_call x = Inl AxisError
         \<and> Variation_call b x = Inr x \<and> Amplitude_call b x = Inr x \<and> Energy_call b x = Inr x
         \<and> DetectArtifacts_call x fl = Inr (Numeric x)"
  using assms by (simp add: Raw_call_low passthrough)

theorem Raw_has_no_passthrough_witness:
  "ndim \<lparr>shape = [2, 2], buf = [1, 2, 3, 4 :: rat]\<rparr> < 3
   \<and> Raw_call \<lparr>shape = [2, 2], buf = [1, 2, 3, 4 :: rat]\<rparr> = Inl AxisError
   \<and> Variation_call 2 \<lparr>shape = [2, 2], buf = [1, 2, 3, 4 :: rat]\<rparr>
       = Inr \<lparr>shape = [2, 2], buf = [1, 2, 3, 4]\<rparr>
   \<and> DetectArtifacts_call \<lparr>shape = [2, 2], buf = [1, 2, 3, 4 :: rat]\<rparr>
         \<lparr>sampling_rate = 1, max_volt = 10, convert = (\<lambda>v. v)\<rparr>
       = Inr (Numeric \<lparr>shape = [2, 2], buf = [1, 2, 3, 4]\<rparr>)"
  using Raw_has_no_passthrough [of "\<lparr>shape = [2, 2], buf = [1, 2, 3, 4 :: rat]\<rparr>" 2
      "\<lparr>sampling_rate = 1, max_volt = 10, convert = (\<lambda>v. v)\<rparr>"]
  by (simp add: ndim_def)

end
